theory Spec2Isabelle
  imports Main "HOL-Library.Word" "HOL-Library.Sublist"
begin

section \<open>JavaScript values used by the resolver\<close>

text \<open>
  A JavaScript string is a sequence of UTF-16 code units, and \<^verbatim>\<open>s.length\<close> counts
  code units. The model keeps that: a string is a list of 16-bit words, and \<open>lit\<close> embeds
  the ASCII literals of the source.
\<close>

type_synonym code_unit = "16 word"
type_synonym js_string = "code_unit list"

definition lit :: "string \<Rightarrow> js_string" where
  "lit s = map (\<lambda>c. of_nat (of_char c)) s"

text \<open>
  \<^verbatim>\<open>String.prototype.includes\<close>: does the search string occur as a contiguous run
  of code units? The empty search string occurs in every string.
\<close>

fun str_includes :: "js_string \<Rightarrow> js_string \<Rightarrow> bool" where
  "str_includes [] sub = (sub = [])"
| "str_includes (c # s) sub = (prefix sub (c # s) \<or> str_includes s sub)"

text \<open>
  \<^verbatim>\<open>String(n)\<close> for an integral number: the decimal digits, with a leading minus sign for
  a negative one. User ids are integers (a serial column), well inside the range where a
  JavaScript number is exact, so they are modelled as \<open>int\<close>.
\<close>

definition digit :: "nat \<Rightarrow> code_unit" where
  "digit d = of_nat (48 + d)"

fun show_nat :: "nat \<Rightarrow> js_string" where
  "show_nat n = (if n < 10 then [digit n] else show_nat (n div 10) @ [digit (n mod 10)])"

declare show_nat.simps [simp del]

definition Number_toString :: "int \<Rightarrow> js_string" where
  "Number_toString i = (if i < 0 then lit ''-'' @ show_nat (nat (- i)) else show_nat (nat i))"

text \<open>
  \<^verbatim>\<open>parseInt(string)\<close> with no radix, after ECMAScript: leading white space is skipped, an
  optional sign is read, a prefix \<^verbatim>\<open>0x\<close> or \<^verbatim>\<open>0X\<close> selects radix 16 (radix 10 otherwise),
  and the longest run of digits of that radix is the number. No digit at all gives
  \<^verbatim>\<open>NaN\<close>, which is \<open>None\<close> here.
\<close>

definition isWhiteSpace :: "code_unit \<Rightarrow> bool" where
  "isWhiteSpace c = (c \<in> {0x09, 0x0A, 0x0B, 0x0C, 0x0D, 0x20, 0xA0, 0x1680,
      0x2028, 0x2029, 0x202F, 0x205F, 0x3000, 0xFEFF} \<or> (0x2000 \<le> c \<and> c \<le> 0x200A))"

definition digit_value :: "code_unit \<Rightarrow> nat option" where
  "digit_value c =
     (if 0x30 \<le> c \<and> c \<le> 0x39 then Some (unat c - 48)
      else if 0x61 \<le> c \<and> c \<le> 0x7A then Some (unat c - 87)
      else if 0x41 \<le> c \<and> c \<le> 0x5A then Some (unat c - 55)
      else None)"

fun digits_prefix :: "nat \<Rightarrow> js_string \<Rightarrow> nat list" where
  "digits_prefix R [] = []"
| "digits_prefix R (c # s) =
     (case digit_value c of
        None \<Rightarrow> []
      | Some d \<Rightarrow> if d < R then d # digits_prefix R s else [])"

definition from_digits :: "nat \<Rightarrow> nat list \<Rightarrow> nat" where
  "from_digits R ds = foldl (\<lambda>a d. a * R + d) 0 ds"

definition parseInt :: "js_string \<Rightarrow> int option" where
  "parseInt str =
     (let s = dropWhile isWhiteSpace str;
          neg = (take 1 s = lit ''-'');
          s1 = (if take 1 s = lit ''+'' \<or> take 1 s = lit ''-'' then drop 1 s else s);
          hex = (take 2 s1 = lit ''0x'' \<or> take 2 s1 = lit ''0X'');
          R = (if hex then 16 else 10);
          Z = digits_prefix R (if hex then drop 2 s1 else s1)
      in if Z = [] then None
         else Some ((if neg then - 1 else 1) * int (from_digits R Z)))"

section \<open>Entities and response types\<close>

record UsernamePasswordInput =
  email :: js_string
  username :: js_string
  password :: js_string

text \<open>
  Modelled from the spec: the declaration of the \<^verbatim>\<open>User\<close> entity is imported by the
  resolver and is not among the sources. The spec's data model gives it an integer
  identifier, a username, an email, a password that holds the hash, and the two
  timestamps; these are also the columns the insert of \<open>register\<close> names. Timestamps are
  milliseconds on the clock of the model.
\<close>

record User =
  id' :: int
  username :: js_string
  email :: js_string
  password :: js_string
  created_at :: nat
  updated_at :: nat

record FieldError =
  field :: js_string
  message :: js_string

text \<open>Both fields of \<^verbatim>\<open>UserResponse\<close> are optional; \<open>None\<close> is an absent field.\<close>

record UserResponse =
  errors :: "FieldError list option"
  user :: "User option"

text \<open>
  A resolver either returns a value or ends with an exception that nothing catches.
  The two exceptions the resolver can raise by itself are the \<^verbatim>\<open>TypeError\<close> of reading a
  property of \<^verbatim>\<open>undefined\<close> (the property is recorded) and a rejection of the mail
  transport that \<^verbatim>\<open>await\<close> rethrows.
\<close>

datatype exn = ReadPropertyOfUndefined string | MailTransportError

datatype 'a outcome = Returned 'a | Threw exn

section \<open>The request context and the collaborators\<close>

text \<open>
  The resolver works on the handles of its context: the entity manager \<^verbatim>\<open>em\<close> (the user
  table), the session of the request (\<^verbatim>\<open>req.session.userId\<close>), and the key-value store
  \<^verbatim>\<open>redis\<close>. The model passes them as one explicit state, together with the mails handed
  to the transport and a trace of every call made to a collaborator, in order, so that
  "this store was not consulted" is a statement about the trace.
\<close>

datatype where_clause = ById "int option" | ByUsername js_string | ByEmail js_string

text \<open>The unit of the expiry argument of the store's \<^verbatim>\<open>SET\<close>: \<open>Ex\<close> ("ex") seconds, \<open>Px\<close> ("px") milliseconds.\<close>

datatype expiry_unit = Ex | Px

datatype event =
    EmFindOne where_clause
  | KnexInsert js_string js_string js_string
  | EmPersistAndFlush int
  | Argon2Hash js_string
  | Argon2Verify js_string js_string
  | RedisSet js_string js_string expiry_unit nat
  | RedisGet js_string
  | RedisDel js_string
  | SessionSetUserId int
  | SendEmail js_string js_string

record redis_entry =
  val :: js_string
  expires_at :: nat

record world =
  users :: "User list"
  user_id_seq :: int
  session_userId :: "int option"
  redis :: "js_string \<rightharpoonup> redis_entry"
  clock :: nat
  outbox :: "(js_string \<times> js_string) list"
  trace :: "event list"

text \<open>The error object a rejected insert throws; \<^verbatim>\<open>err.detail\<close> may be undefined.\<close>

record db_error =
  detail :: "js_string option"

text \<open>
  What the resolver imports and does not define: the validation rule set, the password
  hasher, the token generator, the key prefix, and the two ways the infrastructure can
  fail that the resolver's control flow depends on (an insert rejected for a reason of
  the engine's own, a mail the transport rejects). One \<open>env\<close> fixes them for one request.
\<close>

record env =
  validateRegister :: "UsernamePasswordInput \<Rightarrow> FieldError list option"
  argon2_hash :: "js_string \<Rightarrow> js_string"
  argon2_verify :: "js_string \<Rightarrow> js_string \<Rightarrow> bool"
  v4 :: js_string
  FORGOT_PASSWORD_PREFIX :: js_string
  insert_fault :: "db_error option"
  sendEmail_rejected :: bool

definition log_event :: "event \<Rightarrow> world \<Rightarrow> world" where
  "log_event e w = w\<lparr>trace := trace w @ [e]\<rparr>"

text \<open>Time passes between requests, not inside one.\<close>

definition advance :: "nat \<Rightarrow> world \<Rightarrow> world" where
  "advance ms w = w\<lparr>clock := clock w + ms\<rparr>"

subsection \<open>The entity manager\<close>

fun matches :: "where_clause \<Rightarrow> User \<Rightarrow> bool" where
  "matches (ById None) u = False"
| "matches (ById (Some i)) u = (id' u = i)"
| "matches (ByUsername s) u = (username u = s)"
| "matches (ByEmail s) u = (email u = s)"

text \<open>\<^verbatim>\<open>em.findOne(User, where)\<close>: the row that matches, or \<^verbatim>\<open>null\<close>. A \<^verbatim>\<open>NaN\<close> id matches no row.\<close>

definition em_findOne :: "where_clause \<Rightarrow> world \<Rightarrow> User option" where
  "em_findOne c w = find (matches c) (users w)"

text \<open>\<^verbatim>\<open>em.persistAndFlush(user)\<close>: the row with the entity's primary key takes its values.\<close>

definition em_persistAndFlush :: "User \<Rightarrow> world \<Rightarrow> world" where
  "em_persistAndFlush u w =
     log_event (EmPersistAndFlush (id' u))
       (w\<lparr>users := map (\<lambda>r. if id' r = id' u then u else r) (users w)\<rparr>)"

text \<open>
  Modelled from the spec: the uniqueness constraints belong to the entity declaration,
  which is not among the sources; the spec's data model makes \<open>username\<close> and \<open>email\<close>
  each unique. The engine rejects a second row with either value, and the detail of its
  error names the key and ends in "already exists.".
\<close>

definition unique_violation :: "string \<Rightarrow> js_string \<Rightarrow> db_error" where
  "unique_violation column v =
     \<lparr>detail = Some (lit ''Key ('' @ lit column @ lit '')=('' @ v @ lit '') already exists.'')\<rparr>"

text \<open>
  The insert of \<open>register\<close>, with \<^verbatim>\<open>returning("*")\<close>: the new row, or the error thrown.
  The id comes from the sequence of the table, which a rejected row uses up as well.
\<close>

definition knex_insert ::
  "env \<Rightarrow> js_string \<Rightarrow> js_string \<Rightarrow> js_string \<Rightarrow> world \<Rightarrow> (db_error + User) \<times> world" where
  "knex_insert env uname pw mail w =
     (let w1 = log_event (KnexInsert uname pw mail) w in
      case insert_fault env of
        Some err \<Rightarrow> (Inl err, w1)
      | None \<Rightarrow>
          if em_findOne (ByUsername uname) w \<noteq> None
          then (Inl (unique_violation ''username'' uname), w1\<lparr>user_id_seq := user_id_seq w + 1\<rparr>)
          else if em_findOne (ByEmail mail) w \<noteq> None
          then (Inl (unique_violation ''email'' mail), w1\<lparr>user_id_seq := user_id_seq w + 1\<rparr>)
          else
            let row = \<lparr>id' = user_id_seq w, username = uname, email = mail, password = pw,
                       created_at = clock w, updated_at = clock w\<rparr>
            in (Inr row, w1\<lparr>users := users w @ [row], user_id_seq := user_id_seq w + 1\<rparr>))"

subsection \<open>The key-value store\<close>

definition ttl_ms :: "expiry_unit \<Rightarrow> nat \<Rightarrow> nat" where
  "ttl_ms unit n = (case unit of Ex \<Rightarrow> n * 1000 | Px \<Rightarrow> n)"

definition redis_set :: "js_string \<Rightarrow> js_string \<Rightarrow> expiry_unit \<Rightarrow> nat \<Rightarrow> world \<Rightarrow> world" where
  "redis_set k v unit n w =
     log_event (RedisSet k v unit n)
       (w\<lparr>redis := (redis w)(k \<mapsto> \<lparr>val = v, expires_at = clock w + ttl_ms unit n\<rparr>)\<rparr>)"

text \<open>\<^verbatim>\<open>redis.get(key)\<close>: the value, or \<^verbatim>\<open>null\<close> for a key never set, deleted or expired.\<close>

definition redis_get :: "js_string \<Rightarrow> world \<Rightarrow> js_string option" where
  "redis_get k w =
     (case redis w k of
        None \<Rightarrow> None
      | Some e \<Rightarrow> if clock w < expires_at e then Some (val e) else None)"

definition redis_del :: "js_string \<Rightarrow> world \<Rightarrow> world" where
  "redis_del k w = log_event (RedisDel k) (w\<lparr>redis := (redis w)(k := None)\<rparr>)"

subsection \<open>Session and mail\<close>

definition session_set_userId :: "int \<Rightarrow> world \<Rightarrow> world" where
  "session_set_userId i w = log_event (SessionSetUserId i) (w\<lparr>session_userId := Some i\<rparr>)"

text \<open>
  \<^verbatim>\<open>sendEmail(to, html)\<close>: the mail is handed to the transport; the boolean says whether
  the transport took it (\<open>False\<close>: the awaited promise rejects).
\<close>

definition sendEmail :: "env \<Rightarrow> js_string \<Rightarrow> js_string \<Rightarrow> world \<Rightarrow> bool \<times> world" where
  "sendEmail env to html w =
     (if sendEmail_rejected env then (False, log_event (SendEmail to html) w)
      else (True, log_event (SendEmail to html) (w\<lparr>outbox := outbox w @ [(to, html)]\<rparr>)))"

section \<open>The resolver\<close>

text \<open>A handler takes the collaborators, its arguments and the state, and gives its outcome and the state it leaves.\<close>

type_synonym 'a handler = "world \<Rightarrow> 'a outcome \<times> world"

subsection \<open>register\<close>

text \<open>
  The \<^verbatim>\<open>try\<close>/\<^verbatim>\<open>catch\<close> around the insert has three exits: the handler returns from inside
  the \<^verbatim>\<open>catch\<close>, the \<^verbatim>\<open>catch\<close> itself throws (\<^verbatim>\<open>err.detail\<close> undefined), or control falls
  through to the statements after it with the local \<^verbatim>\<open>user\<close> assigned or still undefined.
\<close>

datatype try_exit = ReturnFromCatch UserResponse | ThrowFromCatch exn | FallThrough "User option"

definition register_try :: "db_error + User \<Rightarrow> try_exit" where
  "register_try result =
     (case result of
        Inr row \<Rightarrow> FallThrough (Some row)
      | Inl err \<Rightarrow>
          (case detail err of
             None \<Rightarrow> ThrowFromCatch (ReadPropertyOfUndefined ''includes'')
           | Some d \<Rightarrow>
               if str_includes d (lit ''already exists'')
               then ReturnFromCatch
                      \<lparr>errors = Some [\<lparr>field = lit ''username'',
                                       message = lit ''username already taken''\<rparr>],
                       user = None\<rparr>
               else FallThrough None))"

definition register :: "env \<Rightarrow> UsernamePasswordInput \<Rightarrow> UserResponse handler" where
  "register env options w =
     (case validateRegister env options of
        Some errs \<Rightarrow> (Returned \<lparr>errors = Some errs, user = None\<rparr>, w)
      | None \<Rightarrow>
         (let hashedPassword = argon2_hash env (UsernamePasswordInput.password options);
              w1 = log_event (Argon2Hash (UsernamePasswordInput.password options)) w;
              (result, w2) = knex_insert env (UsernamePasswordInput.username options) hashedPassword
                               (UsernamePasswordInput.email options) w1
          in (case register_try result of
                ReturnFromCatch r \<Rightarrow> (Returned r, w2)
              | ThrowFromCatch e \<Rightarrow> (Threw e, w2)
              | FallThrough None \<Rightarrow> (Threw (ReadPropertyOfUndefined ''id''), w2)
              | FallThrough (Some row) \<Rightarrow>
                  (Returned \<lparr>errors = None, user = Some row\<rparr>,
                   session_set_userId (id' row) w2))))"

subsection \<open>login\<close>

definition login :: "env \<Rightarrow> js_string \<Rightarrow> js_string \<Rightarrow> UserResponse handler" where
  "login env usernameOrEmail pw w =
     (let cond = (if str_includes usernameOrEmail (lit ''@'')
                  then ByEmail usernameOrEmail else ByUsername usernameOrEmail);
          found = em_findOne cond w;
          w1 = log_event (EmFindOne cond) w
      in case found of
           None \<Rightarrow>
             (Returned \<lparr>errors = Some [\<lparr>field = lit ''usernameOrEmail'',
                                        message = lit ''username or email doesn't exist''\<rparr>],
                        user = None\<rparr>, w1)
         | Some u \<Rightarrow>
             let valid = argon2_verify env (password u) pw;
                 w2 = log_event (Argon2Verify (password u) pw) w1
             in if \<not> valid
                then (Returned \<lparr>errors = Some [\<lparr>field = lit ''password'',
                                                message = lit ''incorrect password''\<rparr>],
                                user = None\<rparr>, w2)
                else (Returned \<lparr>errors = None, user = Some u\<rparr>, session_set_userId (id' u) w2))"

subsection \<open>forgotPassword\<close>

definition reset_link :: "js_string \<Rightarrow> js_string" where
  \<open>reset_link token =
     lit ''<a href="http://localhost:3000/change-password/'' @ token @ lit ''"> reset password </a>''\<close>

definition forgotPassword :: "env \<Rightarrow> js_string \<Rightarrow> bool handler" where
  "forgotPassword env mail w =
     (let found = em_findOne (ByEmail mail) w;
          w1 = log_event (EmFindOne (ByEmail mail)) w
      in case found of
           None \<Rightarrow> (Returned True, w1)
         | Some u \<Rightarrow>
             let token = v4 env;
                 w2 = redis_set (FORGOT_PASSWORD_PREFIX env @ token) (Number_toString (id' u))
                        Ex (1000 * 60 * 60 * 24 * 3) w1;
                 (sent, w3) = sendEmail env mail (reset_link token) w2
             in if sent then (Returned True, w3) else (Threw MailTransportError, w3))"

subsection \<open>changePassword\<close>

text \<open>
  \<^verbatim>\<open>!userId\<close> holds for \<^verbatim>\<open>null\<close> and for the empty string. The promise of
  \<^verbatim>\<open>em.persistAndFlush\<close> is not awaited in the source; the model runs the update in place,
  before the token is deleted.
\<close>

definition changePassword :: "env \<Rightarrow> js_string \<Rightarrow> js_string \<Rightarrow> UserResponse handler" where
  "changePassword env token newPassword w =
     (if length newPassword \<le> 2
      then (Returned \<lparr>errors = Some [\<lparr>field = lit ''newPassword'',
                                      message = lit ''length must be greater than 2''\<rparr>],
                      user = None\<rparr>, w)
      else
        let redisKey = FORGOT_PASSWORD_PREFIX env @ token;
            userId = redis_get redisKey w;
            w1 = log_event (RedisGet redisKey) w
        in case userId of
             None \<Rightarrow>
               (Returned \<lparr>errors = Some [\<lparr>field = lit ''token'',
                                          message = lit ''token expired''\<rparr>],
                          user = None\<rparr>, w1)
           | Some s \<Rightarrow>
               if s = []
               then (Returned \<lparr>errors = Some [\<lparr>field = lit ''token'',
                                               message = lit ''token expired''\<rparr>],
                               user = None\<rparr>, w1)
               else
                 (let found = em_findOne (ById (parseInt s)) w1;
                      w2 = log_event (EmFindOne (ById (parseInt s))) w1
                  in case found of
                      None \<Rightarrow>
                        (Returned \<lparr>errors = Some [\<lparr>field = lit ''token'',
                                                   message = lit ''user no longer exists''\<rparr>],
                                   user = None\<rparr>, w2)
                    | Some u \<Rightarrow>
                        let u' = u\<lparr>password := argon2_hash env newPassword\<rparr>;
                            w3 = log_event (Argon2Hash newPassword) w2;
                            w4 = em_persistAndFlush u' w3;
                            w5 = redis_del redisKey w4;
                            w6 = session_set_userId (id' u') w5
                        in (Returned \<lparr>errors = None, user = Some u'\<rparr>, w6)))"

section \<open>Reading the trace, and a sample context\<close>

text \<open>The calls a handler made: what it appended to the trace of the state it started in.\<close>

definition new_events :: "world \<Rightarrow> world \<Rightarrow> event list" where
  "new_events w w' = drop (length (trace w)) (trace w')"

text \<open>The row lookups among some calls, in order.\<close>

definition lookups :: "event list \<Rightarrow> where_clause list" where
  "lookups evs = [c. EmFindOne c \<leftarrow> evs]"

text \<open>
  A concrete context to run the handlers in: one registered user, an empty store, no
  session, a hasher that tags the password, and collaborators that do not fail.
\<close>

definition sample_env :: env where
  "sample_env =
     \<lparr>validateRegister = (\<lambda>options. None),
      argon2_hash = (\<lambda>p. lit ''h:'' @ p),
      argon2_verify = (\<lambda>h p. h = lit ''h:'' @ p),
      v4 = lit ''tok'',
      FORGOT_PASSWORD_PREFIX = lit ''forget-password:'',
      insert_fault = None,
      sendEmail_rejected = False\<rparr>"

definition bob :: User where
  "bob = \<lparr>id' = 7, username = lit ''bob'', email = lit ''bob@x.io'',
          password = lit ''h:secret'', created_at = 0, updated_at = 0\<rparr>"

definition sample_world :: world where
  "sample_world =
     \<lparr>users = [bob], user_id_seq = 8, session_userId = None, redis = Map.empty,
      clock = 0, outbox = [], trace = []\<rparr>"

section \<open>Basic facts about the model\<close>

lemma log_event_simps [simp]:
  "users (log_event e w) = users w"
  "user_id_seq (log_event e w) = user_id_seq w"
  "session_userId (log_event e w) = session_userId w"
  "redis (log_event e w) = redis w"
  "clock (log_event e w) = clock w"
  "outbox (log_event e w) = outbox w"
  "trace (log_event e w) = trace w @ [e]"
  by (simp_all add: log_event_def)

lemma em_findOne_log_event [simp]: "em_findOne c (log_event e w) = em_findOne c w"
  by (simp add: em_findOne_def)

lemma redis_get_log_event [simp]: "redis_get k (log_event e w) = redis_get k w"
  by (simp add: redis_get_def split: option.splits)

lemma new_events_append [simp]: "trace w' = trace w @ evs \<Longrightarrow> new_events w w' = evs"
  by (simp add: new_events_def)

lemma lit_append: "lit (a @ b) = lit a @ lit b"
  by (simp add: lit_def)

lemma str_includes_sublist: "str_includes s sub \<longleftrightarrow> sublist sub s"
  by (induction s) (auto simp: sublist_Cons_right)

lemma str_includes_single: "str_includes s [c] \<longleftrightarrow> c \<in> set s"
  by (induction s) auto

lemma lit_at: "lit ''@'' = [0x40]"
  by (simp add: lit_def)

lemma unique_violation_already_exists:
  "\<exists>d. detail (unique_violation column v) = Some d \<and> str_includes d (lit ''already exists'')"
proof -
  have "lit '') already exists.'' = lit '') '' @ lit ''already exists'' @ lit ''.''"
    by (simp add: lit_def)
  then have "sublist (lit ''already exists'')
               ((lit ''Key ('' @ lit column @ lit '')=('' @ v @ lit '') '') @ lit ''already exists'' @ lit ''.'')"
    by (intro sublist_appendI)
  then show ?thesis
    by (simp add: unique_violation_def str_includes_sublist lit_def)
qed

subsection \<open>Numbers and their decimal strings\<close>

lemma digit_cases: "d < 10 \<Longrightarrow> d \<in> {0, 1, 2, 3, 4, 5, 6, 7, 8, 9::nat}"
  by auto

lemma digit_value_digit: "d < 10 \<Longrightarrow> digit_value (digit d) = Some d"
  by (drule digit_cases) (auto simp: digit_def digit_value_def)

lemma digit_not_special:
  assumes "d < 10"
  shows "\<not> isWhiteSpace (digit d)" "digit d \<noteq> 0x2B" "digit d \<noteq> 0x2D" "digit d \<noteq> 0x78" "digit d \<noteq> 0x58"
  using digit_cases [OF assms] by (auto simp: digit_def isWhiteSpace_def)

lemma show_nat_digits:
  "\<exists>ds. show_nat n = map digit ds \<and> ds \<noteq> [] \<and> list_all (\<lambda>d. d < 10) ds \<and> from_digits 10 ds = n"
proof (induction n rule: show_nat.induct)
  case (1 n)
  show ?case
  proof (cases "n < 10")
    case True
    then have "show_nat n = map digit [n]" by (simp add: show_nat.simps)
    with True show ?thesis by (intro exI [of _ "[n]"]) (simp add: from_digits_def)
  next
    case False
    with 1 obtain ds where ds: "show_nat (n div 10) = map digit ds" "ds \<noteq> []"
      "list_all (\<lambda>d. d < 10) ds" "from_digits 10 ds = n div 10" by auto
    from False have "show_nat n = map digit (ds @ [n mod 10])"
      by (subst show_nat.simps) (simp add: ds)
    moreover have "from_digits 10 (ds @ [n mod 10]) = n"
      using ds(4) by (simp add: from_digits_def)
    ultimately show ?thesis
      using ds(3) by (intro exI [of _ "ds @ [n mod 10]"]) simp
  qed
qed

lemma digits_prefix_digits:
  "list_all (\<lambda>d. d < 10) ds \<Longrightarrow> digits_prefix 10 (map digit ds) = ds"
  by (induction ds) (simp_all add: digit_value_digit)

lemma lit_signs: "lit ''-'' = [0x2D]" "lit ''+'' = [0x2B]" "lit ''0x'' = [0x30, 0x78]" "lit ''0X'' = [0x30, 0x58]"
  by (simp_all add: lit_def)

lemma parseInt_digits:
  assumes "ds \<noteq> []" and "list_all (\<lambda>d. d < 10) ds"
  shows "parseInt (map digit ds) = Some (int (from_digits 10 ds))"
    and "parseInt (lit ''-'' @ map digit ds) = Some (- int (from_digits 10 ds))"
proof -
  from assms obtain d ds' where ds: "ds = d # ds'" and d: "d < 10" and ds': "list_all (\<lambda>d. d < 10) ds'"
    by (cases ds) auto
  have nohex: "take 2 (map digit ds) \<noteq> [0x30, 0x78]" "take 2 (map digit ds) \<noteq> [0x30, 0x58]"
    using ds' digit_not_special by (cases ds'; simp add: ds)+
  have nosign: "take 1 (map digit ds) \<noteq> [0x2D]" "take 1 (map digit ds) \<noteq> [0x2B]"
    using d digit_not_special by (simp_all add: ds)
  have ws: "dropWhile isWhiteSpace (map digit ds) = map digit ds"
    using d digit_not_special by (simp add: ds)
  have minus: "\<not> isWhiteSpace 0x2D" by (simp add: isWhiteSpace_def)
  show "parseInt (map digit ds) = Some (int (from_digits 10 ds))"
    using assms nohex nosign
    by (simp add: parseInt_def ws lit_signs digits_prefix_digits del: take_Suc_Cons)
  show "parseInt (lit ''-'' @ map digit ds) = Some (- int (from_digits 10 ds))"
    using assms nohex
    by (simp add: parseInt_def minus lit_signs digits_prefix_digits)
qed

lemma parseInt_Number_toString: "parseInt (Number_toString i) = Some i"
proof -
  obtain ds where ds: "show_nat (nat \<bar>i\<bar>) = map digit ds" "ds \<noteq> []"
    "list_all (\<lambda>d. d < 10) ds" "from_digits 10 ds = nat \<bar>i\<bar>"
    using show_nat_digits by blast
  show ?thesis
  proof (cases "i < 0")
    case True
    then have "Number_toString i = lit ''-'' @ map digit ds"
      using ds(1) by (simp add: Number_toString_def abs_if)
    with True show ?thesis using parseInt_digits(2) [OF ds(2,3)] ds(4) by simp
  next
    case False
    then have "Number_toString i = map digit ds"
      using ds(1) by (simp add: Number_toString_def abs_if)
    with False show ?thesis using parseInt_digits(1) [OF ds(2,3)] ds(4) by simp
  qed
qed

lemma Number_toString_nonempty: "Number_toString i \<noteq> []"
  using show_nat_digits [of "nat (- i)"] show_nat_digits [of "nat i"]
  by (auto simp: Number_toString_def)

subsection \<open>The insert of register\<close>

lemma knex_insert_fault:
  "insert_fault env = Some err \<Longrightarrow>
   knex_insert env uname pw mail w = (Inl err, log_event (KnexInsert uname pw mail) w)"
  by (simp add: knex_insert_def)

lemma register_try_unique_violation:
  "register_try (Inl (unique_violation column v)) =
     ReturnFromCatch \<lparr>errors = Some [\<lparr>field = lit ''username'',
                                       message = lit ''username already taken''\<rparr>],
                      user = None\<rparr>"
  using unique_violation_already_exists [of column v]
  by (auto simp: register_try_def)

lemma register_try_Inr: "register_try (Inr row) = FallThrough (Some row)"
  by (simp add: register_try_def)

lemma fst_register:
  assumes "validateRegister env options = None"
  shows "fst (register env options w) =
           (case register_try
                   (fst (knex_insert env (UsernamePasswordInput.username options)
                          (argon2_hash env (UsernamePasswordInput.password options))
                          (UsernamePasswordInput.email options)
                          (log_event (Argon2Hash (UsernamePasswordInput.password options)) w))) of
              ReturnFromCatch r \<Rightarrow> Returned r
            | ThrowFromCatch e \<Rightarrow> Threw e
            | FallThrough None \<Rightarrow> Threw (ReadPropertyOfUndefined ''id'')
            | FallThrough (Some row) \<Rightarrow> Returned \<lparr>errors = None, user = Some row\<rparr>)"
  using assms
  by (simp add: register_def Let_def split_beta split: try_exit.splits option.splits)

lemma knex_insert_taken:
  assumes "insert_fault env = None" and "em_findOne (ByUsername uname) w \<noteq> None"
  shows "fst (knex_insert env uname pw mail w) = Inl (unique_violation ''username'' uname)"
  using assms by (simp add: knex_insert_def Let_def)

lemma register_success_row:
  assumes "validateRegister env options = None" and "insert_fault env = None"
      and "fst (register env options w) = Returned \<lparr>errors = None, user = Some row\<rparr>"
  shows "users (snd (register env options w)) = users w @ [row] \<and>
         username row = UsernamePasswordInput.username options"
  using assms
  by (auto simp: register_def knex_insert_def Let_def register_try_unique_violation
      register_try_Inr session_set_userId_def split: if_splits)

lemma em_findOne_appended:
  "users w' = users w @ [row] \<Longrightarrow> matches c row \<Longrightarrow> em_findOne c w' \<noteq> None"
  by (auto simp: em_findOne_def find_None_iff)

lemma register_insert_error_without_detail:
  assumes "validateRegister env options = None"
      and "insert_fault env = Some err" and "detail err = None"
  shows "fst (register env options w) = Threw (ReadPropertyOfUndefined ''includes'')"
  using assms by (simp add: register_def register_try_def knex_insert_fault Let_def)

subsection \<open>The store, the mail and forgotPassword\<close>

lemma sendEmail_frame [simp]:
  "redis (snd (sendEmail env to html w)) = redis w"
  "users (snd (sendEmail env to html w)) = users w"
  "clock (snd (sendEmail env to html w)) = clock w"
  "session_userId (snd (sendEmail env to html w)) = session_userId w"
  "trace (snd (sendEmail env to html w)) = trace w @ [SendEmail to html]"
  "outbox (snd (sendEmail env to html w)) =
     (if sendEmail_rejected env then outbox w else outbox w @ [(to, html)])"
  by (simp_all add: sendEmail_def)

lemma redis_set_frame [simp]:
  "redis (redis_set k v unit n w) = (redis w)(k \<mapsto> \<lparr>val = v, expires_at = clock w + ttl_ms unit n\<rparr>)"
  "users (redis_set k v unit n w) = users w"
  "clock (redis_set k v unit n w) = clock w"
  "session_userId (redis_set k v unit n w) = session_userId w"
  "outbox (redis_set k v unit n w) = outbox w"
  "trace (redis_set k v unit n w) = trace w @ [RedisSet k v unit n]"
  by (simp_all add: redis_set_def)

lemma forgotPassword_found:
  assumes "em_findOne (ByEmail mail) w = Some u"
  shows "snd (forgotPassword env mail w) =
           snd (sendEmail env mail (reset_link (v4 env))
                  (redis_set (FORGOT_PASSWORD_PREFIX env @ v4 env) (Number_toString (id' u))
                     Ex 259200000 (log_event (EmFindOne (ByEmail mail)) w)))"
    and "fst (forgotPassword env mail w) =
           (if sendEmail_rejected env then Threw MailTransportError else Returned True)"
  using assms by (simp_all add: forgotPassword_def Let_def split_beta sendEmail_def)

lemma forgotPassword_token:
  assumes "em_findOne (ByEmail mail) w = Some u"
  shows "redis (snd (forgotPassword env mail w)) (FORGOT_PASSWORD_PREFIX env @ v4 env) =
           Some \<lparr>val = Number_toString (id' u), expires_at = clock w + 259200000000\<rparr>"
    and "clock (snd (forgotPassword env mail w)) = clock w"
    and "users (snd (forgotPassword env mail w)) = users w"
  by (simp_all add: forgotPassword_found [OF assms] ttl_ms_def)

subsection \<open>The two ways through changePassword after the length check\<close>

lemma changePassword_no_token:
  assumes "2 < length newPassword"
      and "redis_get (FORGOT_PASSWORD_PREFIX env @ token) w = None"
  shows "changePassword env token newPassword w =
           (Returned \<lparr>errors = Some [\<lparr>field = lit ''token'', message = lit ''token expired''\<rparr>],
                      user = None\<rparr>,
            log_event (RedisGet (FORGOT_PASSWORD_PREFIX env @ token)) w)"
  using assms by (simp add: changePassword_def Let_def)

lemma changePassword_valid_token:
  assumes "2 < length newPassword"
      and "redis_get (FORGOT_PASSWORD_PREFIX env @ token) w = Some s" and "s \<noteq> []"
      and "em_findOne (ById (parseInt s)) w = Some u"
  shows "changePassword env token newPassword w =
           (Returned \<lparr>errors = None, user = Some (u\<lparr>password := argon2_hash env newPassword\<rparr>)\<rparr>,
            session_set_userId (id' u)
              (redis_del (FORGOT_PASSWORD_PREFIX env @ token)
                 (em_persistAndFlush (u\<lparr>password := argon2_hash env newPassword\<rparr>)
                    (log_event (Argon2Hash newPassword)
                       (log_event (EmFindOne (ById (parseInt s)))
                          (log_event (RedisGet (FORGOT_PASSWORD_PREFIX env @ token)) w))))))"
  using assms by (simp add: changePassword_def Let_def)

lemma write_frames [simp]:
  "users (session_set_userId i w) = users w"
  "redis (session_set_userId i w) = redis w"
  "clock (session_set_userId i w) = clock w"
  "session_userId (session_set_userId i w) = Some i"
  "users (redis_del k w) = users w"
  "redis (redis_del k w) = (redis w)(k := None)"
  "clock (redis_del k w) = clock w"
  "session_userId (redis_del k w) = session_userId w"
  "users (em_persistAndFlush u w) = map (\<lambda>r. if id' r = id' u then u else r) (users w)"
  "redis (em_persistAndFlush u w) = redis w"
  "clock (em_persistAndFlush u w) = clock w"
  "session_userId (em_persistAndFlush u w) = session_userId w"
  by (simp_all add: session_set_userId_def redis_del_def em_persistAndFlush_def)

lemma find_after_update:
  assumes "find (\<lambda>r. id' r = k) xs = Some u" and "id' u' = k"
  shows "find (\<lambda>r. id' r = k) (map (\<lambda>r. if id' r = k then u' else r) xs) = Some u'"
  using assms by (induction xs) (auto split: if_splits)

lemma em_findOne_ById:
  assumes "em_findOne (ById p) w = Some u"
  shows "p = Some (id' u)" and "find (\<lambda>r. id' r = id' u) (users w) = Some u"
proof -
  from assms obtain i where p: "p = Some i"
    by (cases p) (auto simp: em_findOne_def find_Some_iff)
  with assms have "find (\<lambda>r. id' r = i) (users w) = Some u"
    by (simp add: em_findOne_def cong: find_cong)
  moreover from this have "id' u = i"
    by (auto simp: find_Some_iff)
  ultimately show "p = Some (id' u)" and "find (\<lambda>r. id' r = id' u) (users w) = Some u"
    using p by simp_all
qed

lemma advance_frame [simp]:
  "users (advance ms w) = users w"
  "redis (advance ms w) = redis w"
  "clock (advance ms w) = clock w + ms"
  "session_userId (advance ms w) = session_userId w"
  by (simp_all add: advance_def)

lemma reset_token_is_valid:
  assumes "em_findOne (ByEmail mail) w = Some u" and "ms < 259200000000"
  shows "redis_get (FORGOT_PASSWORD_PREFIX env @ v4 env) (advance ms (snd (forgotPassword env mail w))) =
           Some (Number_toString (id' u))"
    and "\<exists>u'. em_findOne (ById (parseInt (Number_toString (id' u))))
                 (advance ms (snd (forgotPassword env mail w))) = Some u'"
proof -
  show "redis_get (FORGOT_PASSWORD_PREFIX env @ v4 env) (advance ms (snd (forgotPassword env mail w))) =
          Some (Number_toString (id' u))"
    using assms(2) by (simp add: redis_get_def forgotPassword_token [OF assms(1)])
  from assms(1) have "u \<in> set (users w)"
    by (auto simp: em_findOne_def find_Some_iff)
  then have "find (\<lambda>r. id' r = id' u) (users w) \<noteq> None"
    by (auto simp: find_None_iff)
  then show "\<exists>u'. em_findOne (ById (parseInt (Number_toString (id' u))))
                 (advance ms (snd (forgotPassword env mail w))) = Some u'"
    by (simp add: parseInt_Number_toString em_findOne_def forgotPassword_token [OF assms(1)]
        cong: find_cong)
qed

subsection \<open>The sample context\<close>

lemma sample_findOne:
  "em_findOne (ByEmail (lit ''bob@x.io'')) sample_world = Some bob"
  "em_findOne (ByUsername (lit ''bob'')) sample_world = Some bob"
  "em_findOne (ByEmail (lit ''carl@x.io'')) sample_world = None"
  "em_findOne (ByUsername (lit ''carl'')) sample_world = None"
  by (simp_all add: em_findOne_def sample_world_def bob_def lit_def)

lemma sample_at:
  "0x40 \<in> set (lit ''bob@x.io'')" "0x40 \<in> set (lit ''carl@x.io'')"
  "0x40 \<notin> set (lit ''bob'')" "0x40 \<notin> set (lit ''carl'')"
  by (simp_all add: lit_def)

lemma sample_env_simps:
  "validateRegister sample_env options = None"
  "argon2_hash sample_env p = lit ''h:'' @ p"
  "v4 sample_env = lit ''tok''"
  "FORGOT_PASSWORD_PREFIX sample_env = lit ''forget-password:''"
  "insert_fault sample_env = None"
  "\<not> sendEmail_rejected sample_env"
  by (simp_all add: sample_env_def)

lemma sample_reset:
  assumes "ms < 259200000000"
  shows "redis_get (FORGOT_PASSWORD_PREFIX sample_env @ lit ''tok'')
           (advance ms (snd (forgotPassword sample_env (lit ''bob@x.io'') sample_world))) =
           Some (Number_toString 7)"
    and "em_findOne (ById (parseInt (Number_toString 7)))
           (advance ms (snd (forgotPassword sample_env (lit ''bob@x.io'') sample_world))) = Some bob"
proof -
  have seven: "id' bob = 7" by (simp add: bob_def)
  show "redis_get (FORGOT_PASSWORD_PREFIX sample_env @ lit ''tok'')
           (advance ms (snd (forgotPassword sample_env (lit ''bob@x.io'') sample_world))) =
           Some (Number_toString 7)"
    using reset_token_is_valid(1) [OF sample_findOne(1) assms, of sample_env]
    by (simp add: seven sample_env_simps)
  have "em_findOne (ById (Some 7)) sample_world = Some bob"
    by (simp add: em_findOne_def sample_world_def bob_def)
  then show "em_findOne (ById (parseInt (Number_toString 7)))
           (advance ms (snd (forgotPassword sample_env (lit ''bob@x.io'') sample_world))) = Some bob"
    by (simp add: parseInt_Number_toString em_findOne_def
        forgotPassword_token(3) [OF sample_findOne(1)])
qed

lemma advance_0 [simp]: "advance 0 w = w"
  by (simp add: advance_def)

section \<open>Validation comes first\<close>

text \<open>
  C7. When \<open>newPassword\<close> has at most 2 code units, \<open>changePassword\<close> returns the single
  error on the field "newPassword" and leaves the whole state as it was, trace included:
  the token store is not read, no user is looked up, and nothing is written to a store
  or to the session.
\<close>

theorem changePassword_short_newPassword:
  assumes "length newPassword \<le> 2"
  shows "changePassword env token newPassword w =
           (Returned \<lparr>errors = Some [\<lparr>field = lit ''newPassword'',
                                         message = lit ''length must be greater than 2''\<rparr>],
                      user = None\<rparr>, w)"
  using assms by (simp add: changePassword_def)

theorem changePassword_short_newPassword_witness:
  "length (lit ''ab'') \<le> 2 \<and>
   changePassword sample_env (lit ''tok'') (lit ''ab'') sample_world =
     (Returned \<lparr>errors = Some [\<lparr>field = lit ''newPassword'',
                                   message = lit ''length must be greater than 2''\<rparr>],
                user = None\<rparr>, sample_world)"
  using changePassword_short_newPassword [of "lit ''ab''" sample_env "lit ''tok''" sample_world]
  by (simp add: lit_def)

text \<open>
  C8. When the validation rule set reports errors for the input, \<open>register\<close> returns
  exactly those errors and leaves the whole state as it was, trace included: no password
  hash is computed, no row is inserted, and the session is not written.
\<close>

theorem register_validation_errors:
  assumes "validateRegister env options = Some errs"
  shows "register env options w = (Returned \<lparr>errors = Some errs, user = None\<rparr>, w)"
  using assms by (simp add: register_def)


theorem register_validation_errors_witness:
  "register (sample_env\<lparr>validateRegister := (\<lambda>options. Some [\<lparr>field = lit ''email'', message = lit ''invalid email''\<rparr>])\<rparr>)
     \<lparr>UsernamePasswordInput.email = lit ''carl'', UsernamePasswordInput.username = lit ''carl'',
      UsernamePasswordInput.password = lit ''pw1''\<rparr> sample_world =
   (Returned \<lparr>errors = Some [\<lparr>field = lit ''email'', message = lit ''invalid email''\<rparr>], user = None\<rparr>,
    sample_world)"
  by (rule register_validation_errors) simp

section \<open>login\<close>

text \<open>
  C5. A \<open>usernameOrEmail\<close> that contains the code unit of "@" is looked up by email,
  and one that does not is looked up by username: that is the only row lookup the call
  makes. When the lookup finds no row, \<open>login\<close> returns the single error on the field
  "usernameOrEmail".
\<close>

theorem login_lookup_dispatch:
  "(0x40 \<in> set usernameOrEmail \<longrightarrow>
      lookups (new_events w (snd (login env usernameOrEmail pw w))) = [ByEmail usernameOrEmail]) \<and>
   (0x40 \<notin> set usernameOrEmail \<longrightarrow>
      lookups (new_events w (snd (login env usernameOrEmail pw w))) = [ByUsername usernameOrEmail]) \<and>
   (0x40 \<in> set usernameOrEmail \<and> em_findOne (ByEmail usernameOrEmail) w = None \<longrightarrow>
      fst (login env usernameOrEmail pw w) =
        Returned \<lparr>errors = Some [\<lparr>field = lit ''usernameOrEmail'',
                                    message = lit ''username or email doesn't exist''\<rparr>],
                  user = None\<rparr>) \<and>
   (0x40 \<notin> set usernameOrEmail \<and> em_findOne (ByUsername usernameOrEmail) w = None \<longrightarrow>
      fst (login env usernameOrEmail pw w) =
        Returned \<lparr>errors = Some [\<lparr>field = lit ''usernameOrEmail'',
                                    message = lit ''username or email doesn't exist''\<rparr>],
                  user = None\<rparr>)"
  by (simp add: login_def Let_def lit_at str_includes_single lookups_def session_set_userId_def
      split: option.splits)

theorem login_lookup_dispatch_witness:
  "lookups (new_events sample_world (snd (login sample_env (lit ''bob@x.io'') (lit ''secret'') sample_world))) =
     [ByEmail (lit ''bob@x.io'')] \<and>
   lookups (new_events sample_world (snd (login sample_env (lit ''bob'') (lit ''secret'') sample_world))) =
     [ByUsername (lit ''bob'')] \<and>
   fst (login sample_env (lit ''carl@x.io'') (lit ''secret'') sample_world) =
     Returned \<lparr>errors = Some [\<lparr>field = lit ''usernameOrEmail'',
                                 message = lit ''username or email doesn't exist''\<rparr>],
               user = None\<rparr> \<and>
   fst (login sample_env (lit ''carl'') (lit ''secret'') sample_world) =
     Returned \<lparr>errors = Some [\<lparr>field = lit ''usernameOrEmail'',
                                 message = lit ''username or email doesn't exist''\<rparr>],
               user = None\<rparr>"
  using login_lookup_dispatch [of "lit ''bob@x.io''" sample_world sample_env "lit ''secret''"]
    login_lookup_dispatch [of "lit ''bob''" sample_world sample_env "lit ''secret''"]
    login_lookup_dispatch [of "lit ''carl@x.io''" sample_world sample_env "lit ''secret''"]
    login_lookup_dispatch [of "lit ''carl''" sample_world sample_env "lit ''secret''"]
  by (simp add: sample_findOne sample_at)

text \<open>
  C6. When the lookup of \<open>login\<close> finds a user: if the supplied password does not verify
  against the stored hash, \<open>login\<close> returns the single error on the field "password" and
  the state differs from the one before only by the two calls added to the trace, so the
  session is as it was; if the password verifies, \<open>login\<close> returns the user and the
  session holds the user's id.
\<close>

theorem login_password_check:
  assumes "em_findOne (if 0x40 \<in> set usernameOrEmail then ByEmail usernameOrEmail
                       else ByUsername usernameOrEmail) w = Some u"
  shows "(\<not> argon2_verify env (password u) pw \<longrightarrow>
            fst (login env usernameOrEmail pw w) =
              Returned \<lparr>errors = Some [\<lparr>field = lit ''password'', message = lit ''incorrect password''\<rparr>],
                        user = None\<rparr> \<and>
            session_userId (snd (login env usernameOrEmail pw w)) = session_userId w \<and>
            snd (login env usernameOrEmail pw w) =
              w\<lparr>trace := trace w @
                    [EmFindOne (if 0x40 \<in> set usernameOrEmail then ByEmail usernameOrEmail
                                else ByUsername usernameOrEmail),
                     Argon2Verify (password u) pw]\<rparr>) \<and>
         (argon2_verify env (password u) pw \<longrightarrow>
            fst (login env usernameOrEmail pw w) = Returned \<lparr>errors = None, user = Some u\<rparr> \<and>
            session_userId (snd (login env usernameOrEmail pw w)) = Some (id' u))"
  using assms
  by (simp add: login_def Let_def lit_at str_includes_single session_set_userId_def log_event_def)

theorem login_password_check_witness:
  "fst (login sample_env (lit ''bob'') (lit ''wrong'') sample_world) =
     Returned \<lparr>errors = Some [\<lparr>field = lit ''password'', message = lit ''incorrect password''\<rparr>],
               user = None\<rparr> \<and>
   session_userId (snd (login sample_env (lit ''bob'') (lit ''wrong'') sample_world)) = None \<and>
   fst (login sample_env (lit ''bob@x.io'') (lit ''secret'') sample_world) =
     Returned \<lparr>errors = None, user = Some bob\<rparr> \<and>
   session_userId (snd (login sample_env (lit ''bob@x.io'') (lit ''secret'') sample_world)) = Some 7"
proof -
  have wrong: "\<not> argon2_verify sample_env (password bob) (lit ''wrong'')"
    and right: "argon2_verify sample_env (password bob) (lit ''secret'')"
    by (simp_all add: sample_env_def bob_def lit_def)
  have none: "session_userId sample_world = None" and seven: "id' bob = 7"
    by (simp_all add: sample_world_def bob_def)
  show ?thesis
    using login_password_check [of "lit ''bob''" sample_world bob sample_env "lit ''wrong''"]
      login_password_check [of "lit ''bob@x.io''" sample_world bob sample_env "lit ''secret''"]
      wrong right none seven
    by (simp add: sample_findOne sample_at)
qed

text \<open>
  C10. Every call of \<open>login\<close> and of \<open>changePassword\<close> returns a response, and the
  response has exactly one of its two fields: either \<open>errors\<close>, a non-empty list, with
  no \<open>user\<close>, or \<open>user\<close> with no \<open>errors\<close>.
\<close>

theorem responses_populate_one_field:
  "(\<exists>r. fst (login env usernameOrEmail pw w) = Returned r \<and>
        ((\<exists>es. errors r = Some es \<and> es \<noteq> [] \<and> user r = None) \<or>
         (errors r = None \<and> (\<exists>u. user r = Some u)))) \<and>
   (\<exists>r. fst (changePassword env token newPassword w) = Returned r \<and>
        ((\<exists>es. errors r = Some es \<and> es \<noteq> [] \<and> user r = None) \<or>
         (errors r = None \<and> (\<exists>u. user r = Some u))))"
proof
  show "\<exists>r. fst (login env usernameOrEmail pw w) = Returned r \<and>
        ((\<exists>es. errors r = Some es \<and> es \<noteq> [] \<and> user r = None) \<or>
         (errors r = None \<and> (\<exists>u. user r = Some u)))"
    by (simp add: login_def Let_def split: option.splits)
next
  show "\<exists>r. fst (changePassword env token newPassword w) = Returned r \<and>
        ((\<exists>es. errors r = Some es \<and> es \<noteq> [] \<and> user r = None) \<or>
         (errors r = None \<and> (\<exists>u. user r = Some u)))"
    by (simp add: changePassword_def Let_def split: option.splits)
qed

section \<open>register and the insert\<close>

text \<open>
  C4. When the insert of \<open>register\<close> is rejected with a uniqueness violation, \<open>register\<close>
  returns exactly one error, on the field "username" with the message "username already
  taken". In particular, after a registration that succeeded, a second one with the same
  username returns that error.
\<close>

theorem register_unique_violation:
  assumes "validateRegister env options = None"
  shows "(\<forall>column v.
            fst (knex_insert env (UsernamePasswordInput.username options)
                   (argon2_hash env (UsernamePasswordInput.password options))
                   (UsernamePasswordInput.email options)
                   (log_event (Argon2Hash (UsernamePasswordInput.password options)) w)) =
              Inl (unique_violation column v) \<longrightarrow>
            fst (register env options w) =
              Returned \<lparr>errors = Some [\<lparr>field = lit ''username'',
                                          message = lit ''username already taken''\<rparr>],
                        user = None\<rparr>) \<and>
         (\<forall>again row.
            insert_fault env = None \<and> validateRegister env again = None \<and>
            UsernamePasswordInput.username again = UsernamePasswordInput.username options \<and>
            fst (register env options w) = Returned \<lparr>errors = None, user = Some row\<rparr> \<longrightarrow>
            fst (register env again (snd (register env options w))) =
              Returned \<lparr>errors = Some [\<lparr>field = lit ''username'',
                                          message = lit ''username already taken''\<rparr>],
                        user = None\<rparr>)"
proof (intro conjI allI impI)
  fix column v
  assume "fst (knex_insert env (UsernamePasswordInput.username options)
                 (argon2_hash env (UsernamePasswordInput.password options))
                 (UsernamePasswordInput.email options)
                 (log_event (Argon2Hash (UsernamePasswordInput.password options)) w)) =
            Inl (unique_violation column v)"
  then show "fst (register env options w) =
               Returned \<lparr>errors = Some [\<lparr>field = lit ''username'',
                                           message = lit ''username already taken''\<rparr>],
                         user = None\<rparr>"
    by (simp add: fst_register [OF assms] register_try_unique_violation)
next
  fix again row
  assume a: "insert_fault env = None \<and> validateRegister env again = None \<and>
             UsernamePasswordInput.username again = UsernamePasswordInput.username options \<and>
             fst (register env options w) = Returned \<lparr>errors = None, user = Some row\<rparr>"
  let ?w' = "snd (register env options w)"
  from a assms have row: "users ?w' = users w @ [row]"
    "username row = UsernamePasswordInput.username again"
    using register_success_row [of env options w row] by simp_all
  then have "em_findOne (ByUsername (UsernamePasswordInput.username again))
               (log_event (Argon2Hash (UsernamePasswordInput.password again)) ?w') \<noteq> None"
    using em_findOne_appended [of ?w' w row "ByUsername (UsernamePasswordInput.username again)"]
    by simp
  with a show "fst (register env again ?w') =
                 Returned \<lparr>errors = Some [\<lparr>field = lit ''username'',
                                             message = lit ''username already taken''\<rparr>],
                           user = None\<rparr>"
    by (simp add: fst_register knex_insert_taken register_try_unique_violation)
qed

theorem register_unique_violation_witness:
  "fst (register sample_env
          \<lparr>UsernamePasswordInput.email = lit ''bobby@x.io'', UsernamePasswordInput.username = lit ''bob'',
           UsernamePasswordInput.password = lit ''pw1''\<rparr> sample_world) =
     Returned \<lparr>errors = Some [\<lparr>field = lit ''username'', message = lit ''username already taken''\<rparr>],
               user = None\<rparr> \<and>
   fst (register sample_env
          \<lparr>UsernamePasswordInput.email = lit ''carl2@x.io'', UsernamePasswordInput.username = lit ''carl'',
           UsernamePasswordInput.password = lit ''pw2''\<rparr>
          (snd (register sample_env
                  \<lparr>UsernamePasswordInput.email = lit ''carl@x.io'',
                   UsernamePasswordInput.username = lit ''carl'',
                   UsernamePasswordInput.password = lit ''pw1''\<rparr> sample_world))) =
     Returned \<lparr>errors = Some [\<lparr>field = lit ''username'', message = lit ''username already taken''\<rparr>],
               user = None\<rparr>"
proof -
  have v: "validateRegister sample_env options = None" for options
    by (simp add: sample_env_def)
  have f: "insert_fault sample_env = None"
    by (simp add: sample_env_def)
  have dup: "fst (knex_insert sample_env (lit ''bob'') pw mail (log_event e sample_world)) =
               Inl (unique_violation ''username'' (lit ''bob''))" for pw mail e
    by (simp add: knex_insert_taken f sample_findOne)
  have first: "fst (register sample_env
                      \<lparr>UsernamePasswordInput.email = lit ''carl@x.io'',
                       UsernamePasswordInput.username = lit ''carl'',
                       UsernamePasswordInput.password = lit ''pw1''\<rparr> sample_world) =
                 Returned \<lparr>errors = None,
                           user = Some \<lparr>id' = 8, username = lit ''carl'', email = lit ''carl@x.io'',
                                        password = lit ''h:'' @ lit ''pw1'', created_at = 0,
                                        updated_at = 0\<rparr>\<rparr>"
    by (simp add: fst_register v knex_insert_def Let_def f sample_findOne register_try_Inr)
       (simp add: sample_env_def sample_world_def)
  let ?bob = "\<lparr>UsernamePasswordInput.email = lit ''bobby@x.io'',
               UsernamePasswordInput.username = lit ''bob'',
               UsernamePasswordInput.password = lit ''pw1''\<rparr>"
  let ?carl = "\<lparr>UsernamePasswordInput.email = lit ''carl@x.io'',
                UsernamePasswordInput.username = lit ''carl'',
                UsernamePasswordInput.password = lit ''pw1''\<rparr>"
  let ?carl2 = "\<lparr>UsernamePasswordInput.email = lit ''carl2@x.io'',
                 UsernamePasswordInput.username = lit ''carl'',
                 UsernamePasswordInput.password = lit ''pw2''\<rparr>"
  have "fst (register sample_env ?bob sample_world) =
          Returned \<lparr>errors = Some [\<lparr>field = lit ''username'',
                                      message = lit ''username already taken''\<rparr>],
                    user = None\<rparr>"
    using register_unique_violation [OF v, of ?bob sample_world, THEN conjunct1, rule_format,
        of "''username''" "lit ''bob''"] dup
    by simp
  moreover have "fst (register sample_env ?carl2 (snd (register sample_env ?carl sample_world))) =
          Returned \<lparr>errors = Some [\<lparr>field = lit ''username'',
                                      message = lit ''username already taken''\<rparr>],
                    user = None\<rparr>"
    using register_unique_violation [OF v, of ?carl sample_world, THEN conjunct2, rule_format,
        of ?carl2] first f v
    by simp
  ultimately show ?thesis by simp
qed

text \<open>
  C9. When the insert of \<open>register\<close> fails with an error whose detail is a string that
  does not contain "already exists", the \<open>catch\<close> block lets control fall through with
  the local \<open>user\<close> still undefined, and reading \<open>user.id\<close> throws. When the error has
  no detail at all, the \<open>catch\<close> block itself throws, at \<open>err.detail.includes\<close>, and
  \<open>user.id\<close> is never read. Either way \<open>register\<close> returns no response, and the
  session and the user table are as they were.
\<close>

theorem register_insert_error_throws:
  assumes "validateRegister env options = None"
      and "insert_fault env = Some err"
  shows "(\<forall>d. detail err = Some d \<and> \<not> str_includes d (lit ''already exists'') \<longrightarrow>
            register_try (Inl err) = FallThrough None \<and>
            fst (register env options w) = Threw (ReadPropertyOfUndefined ''id'') \<and>
            session_userId (snd (register env options w)) = session_userId w \<and>
            users (snd (register env options w)) = users w) \<and>
         (detail err = None \<longrightarrow>
            register_try (Inl err) = ThrowFromCatch (ReadPropertyOfUndefined ''includes'') \<and>
            fst (register env options w) = Threw (ReadPropertyOfUndefined ''includes'') \<and>
            session_userId (snd (register env options w)) = session_userId w \<and>
            users (snd (register env options w)) = users w)"
  using assms by (simp add: register_def register_try_def knex_insert_fault Let_def)

theorem register_insert_error_throws_witness:
  "fst (register (sample_env\<lparr>insert_fault := Some \<lparr>detail = Some (lit ''connection lost'')\<rparr>\<rparr>)
      \<lparr>UsernamePasswordInput.email = lit ''carl@x.io'', UsernamePasswordInput.username = lit ''carl'',
       UsernamePasswordInput.password = lit ''pw1''\<rparr> sample_world) =
     Threw (ReadPropertyOfUndefined ''id'') \<and>
   fst (register (sample_env\<lparr>insert_fault := Some \<lparr>detail = None\<rparr>\<rparr>)
      \<lparr>UsernamePasswordInput.email = lit ''carl@x.io'', UsernamePasswordInput.username = lit ''carl'',
       UsernamePasswordInput.password = lit ''pw1''\<rparr> sample_world) =
     Threw (ReadPropertyOfUndefined ''includes'')"
proof -
  let ?carl = "\<lparr>UsernamePasswordInput.email = lit ''carl@x.io'', UsernamePasswordInput.username = lit ''carl'',
       UsernamePasswordInput.password = lit ''pw1''\<rparr>"
  have no: "\<not> str_includes (lit ''connection lost'') (lit ''already exists'')"
    by (simp add: lit_def)
  have v: "validateRegister (sample_env\<lparr>insert_fault := f\<rparr>) ?carl = None" for f
    by (simp add: sample_env_def)
  have i: "insert_fault (sample_env\<lparr>insert_fault := f\<rparr>) = f" for f
    by simp
  have "fst (register (sample_env\<lparr>insert_fault := Some \<lparr>detail = Some (lit ''connection lost'')\<rparr>\<rparr>)
          ?carl sample_world) = Threw (ReadPropertyOfUndefined ''id'')"
    using register_insert_error_throws [OF v i, of "\<lparr>detail = Some (lit ''connection lost'')\<rparr>" sample_world,
        THEN conjunct1, rule_format, of "lit ''connection lost''"] no
    by simp
  moreover have "fst (register (sample_env\<lparr>insert_fault := Some \<lparr>detail = None\<rparr>\<rparr>)
          ?carl sample_world) = Threw (ReadPropertyOfUndefined ''includes'')"
    using register_insert_error_throws [OF v i, of "\<lparr>detail = None\<rparr>" sample_world, THEN conjunct2]
    by simp
  ultimately show ?thesis by simp
qed

text \<open>
  The reading of C9 in which every such failure ends at \<open>user.id\<close> does not hold: for
  an error without detail the \<open>catch\<close> block does not fall through, and the exception
  is not the one of reading \<open>id\<close>.
\<close>

theorem register_error_without_detail_counterexample:
  "register_try (Inl \<lparr>detail = None\<rparr>) \<noteq> FallThrough None \<and>
   fst (register (sample_env\<lparr>insert_fault := Some \<lparr>detail = None\<rparr>\<rparr>)
      \<lparr>UsernamePasswordInput.email = lit ''carl@x.io'', UsernamePasswordInput.username = lit ''carl'',
       UsernamePasswordInput.password = lit ''pw1''\<rparr> sample_world) \<noteq>
     Threw (ReadPropertyOfUndefined ''id'')"
proof -
  have "validateRegister (sample_env\<lparr>insert_fault := Some \<lparr>detail = None\<rparr>\<rparr>) options = None" for options
    by (simp add: sample_env_def)
  then show ?thesis
    by (simp add: register_try_def register_insert_error_without_detail)
qed

section \<open>forgotPassword\<close>




text \<open>
  C1. The claim is a time-to-live of 3 days for the stored token. The source passes the
  number of milliseconds in 3 days, \<open>1000 * 60 * 60 * 24 * 3\<close>, together with the unit
  "ex", which counts seconds. For the sample user the entry therefore expires 3000 days
  after the request, and \<open>changePassword\<close> still accepts the token 2000 days after it.
\<close>

theorem forgotPassword_expiry_3000_days:
  "redis (snd (forgotPassword sample_env (lit ''bob@x.io'') sample_world))
     (FORGOT_PASSWORD_PREFIX sample_env @ v4 sample_env) =
     Some \<lparr>val = Number_toString 7, expires_at = 3000 * (24 * 60 * 60 * 1000)\<rparr> \<and>
   fst (changePassword sample_env (lit ''tok'') (lit ''newpw'')
          (advance (2000 * (24 * 60 * 60 * 1000))
             (snd (forgotPassword sample_env (lit ''bob@x.io'') sample_world)))) =
     Returned \<lparr>errors = None, user = Some (bob\<lparr>password := lit ''h:'' @ lit ''newpw''\<rparr>)\<rparr>"
proof -
  have len: "2 < length (lit ''newpw'')"
    by (simp add: lit_def)
  have "2000 * (24 * 60 * 60 * 1000) < (259200000000::nat)"
    by simp
  note later = sample_reset [OF this]
  have "redis (snd (forgotPassword sample_env (lit ''bob@x.io'') sample_world))
     (FORGOT_PASSWORD_PREFIX sample_env @ v4 sample_env) =
     Some \<lparr>val = Number_toString 7, expires_at = 3000 * (24 * 60 * 60 * 1000)\<rparr>"
    by (simp add: forgotPassword_token(1) [OF sample_findOne(1)]) (simp add: bob_def sample_world_def)
  moreover have "fst (changePassword sample_env (lit ''tok'') (lit ''newpw'')
          (advance (2000 * (24 * 60 * 60 * 1000))
             (snd (forgotPassword sample_env (lit ''bob@x.io'') sample_world)))) =
     Returned \<lparr>errors = None, user = Some (bob\<lparr>password := lit ''h:'' @ lit ''newpw''\<rparr>)\<rparr>"
    using changePassword_valid_token [OF len later(1) Number_toString_nonempty later(2)]
    by (simp add: sample_env_simps)
  ultimately show ?thesis by simp
qed

section \<open>changePassword\<close>

text \<open>
  C3. A call of \<open>changePassword\<close> with a new password of more than 2 code units and a
  token that the store still holds, for a user that exists, returns the user with the new
  hash, writes that row to the table, deletes the token and puts the user's id into the
  session. A second call with the same token, right after, returns the single error on
  the field "token" with the message "token expired": the very response of a call with
  a token that the store never held or that has expired.
\<close>

theorem changePassword_single_use:
  assumes "2 < length newPassword"
      and "redis_get (FORGOT_PASSWORD_PREFIX env @ token) w = Some s" and "s \<noteq> []"
      and "em_findOne (ById (parseInt s)) w = Some u"
  shows "fst (changePassword env token newPassword w) =
           Returned \<lparr>errors = None, user = Some (u\<lparr>password := argon2_hash env newPassword\<rparr>)\<rparr> \<and>
         users (snd (changePassword env token newPassword w)) =
           map (\<lambda>r. if id' r = id' u then u\<lparr>password := argon2_hash env newPassword\<rparr> else r) (users w) \<and>
         em_findOne (ById (Some (id' u))) (snd (changePassword env token newPassword w)) =
           Some (u\<lparr>password := argon2_hash env newPassword\<rparr>) \<and>
         redis (snd (changePassword env token newPassword w)) (FORGOT_PASSWORD_PREFIX env @ token) = None \<and>
         session_userId (snd (changePassword env token newPassword w)) = Some (id' u) \<and>
         (\<forall>again. 2 < length again \<longrightarrow>
            fst (changePassword env token again (snd (changePassword env token newPassword w))) =
              Returned \<lparr>errors = Some [\<lparr>field = lit ''token'', message = lit ''token expired''\<rparr>],
                        user = None\<rparr>) \<and>
         (\<forall>again w0. 2 < length again \<and> redis_get (FORGOT_PASSWORD_PREFIX env @ token) w0 = None \<longrightarrow>
            fst (changePassword env token again w0) =
              fst (changePassword env token again (snd (changePassword env token newPassword w))))"
proof -
  let ?u' = "u\<lparr>password := argon2_hash env newPassword\<rparr>"
  let ?key = "FORGOT_PASSWORD_PREFIX env @ token"
  let ?w' = "snd (changePassword env token newPassword w)"
  note run = changePassword_valid_token [OF assms]
  have res: "fst (changePassword env token newPassword w) = Returned \<lparr>errors = None, user = Some ?u'\<rparr>"
    by (simp add: run)
  have tab: "users ?w' = map (\<lambda>r. if id' r = id' u then ?u' else r) (users w)"
    by (simp add: run)
  have row: "em_findOne (ById (Some (id' u))) ?w' = Some ?u'"
    using find_after_update [OF em_findOne_ById(2) [OF assms(4)], of ?u']
    by (simp add: em_findOne_def tab cong: find_cong)
  have del: "redis ?w' ?key = None"
    by (simp add: run)
  have ses: "session_userId ?w' = Some (id' u)"
    by (simp add: run)
  have gone: "redis_get ?key ?w' = None"
    by (simp add: redis_get_def del)
  have second: "fst (changePassword env token again ?w') =
      Returned \<lparr>errors = Some [\<lparr>field = lit ''token'', message = lit ''token expired''\<rparr>], user = None\<rparr>"
    if "2 < length again" for again
    by (simp add: changePassword_no_token [OF that gone])
  have same: "fst (changePassword env token again w0) = fst (changePassword env token again ?w')"
    if "2 < length again \<and> redis_get ?key w0 = None" for again w0
    using that by (simp add: changePassword_no_token second)
  from res tab row del ses second same show ?thesis
    by blast
qed

theorem changePassword_single_use_witness:
  "fst (changePassword sample_env (lit ''tok'') (lit ''newpw'')
          (snd (forgotPassword sample_env (lit ''bob@x.io'') sample_world))) =
     Returned \<lparr>errors = None, user = Some (bob\<lparr>password := lit ''h:'' @ lit ''newpw''\<rparr>)\<rparr> \<and>
   session_userId (snd (changePassword sample_env (lit ''tok'') (lit ''newpw'')
          (snd (forgotPassword sample_env (lit ''bob@x.io'') sample_world)))) = Some 7 \<and>
   fst (changePassword sample_env (lit ''tok'') (lit ''newpw'')
          (snd (changePassword sample_env (lit ''tok'') (lit ''newpw'')
             (snd (forgotPassword sample_env (lit ''bob@x.io'') sample_world))))) =
     Returned \<lparr>errors = Some [\<lparr>field = lit ''token'', message = lit ''token expired''\<rparr>],
               user = None\<rparr>"
proof -
  let ?w1 = "snd (forgotPassword sample_env (lit ''bob@x.io'') sample_world)"
  have len: "2 < length (lit ''newpw'')"
    by (simp add: lit_def)
  have key: "redis_get (FORGOT_PASSWORD_PREFIX sample_env @ lit ''tok'') ?w1 = Some (Number_toString 7)"
    and row: "em_findOne (ById (parseInt (Number_toString 7))) ?w1 = Some bob"
    using sample_reset [of 0] by simp_all
  have seven: "id' bob = 7"
    by (simp add: bob_def)
  show ?thesis
    using changePassword_single_use [OF len key Number_toString_nonempty row] len seven
    by (simp add: sample_env_simps)
qed

end
